theory Spec2Isabelle
  imports Main "HOL-Library.Word"
begin

unbundle bit_operations_syntax

section \<open>Data model\<close>

text \<open>
  The repository holds two revisions of one MP4 reader: \<^verbatim>\<open>src/main.go\<close> and the later
  \<^verbatim>\<open>src/unnamed/part_000\<close>. The box scanner (\<^verbatim>\<open>ReadBytesAt\<close>, \<^verbatim>\<open>ReadBoxAt\<close>,
  \<^verbatim>\<open>readBoxes\<close>, \<^verbatim>\<open>ReadBoxData\<close>), the fixed-point helpers and most box decoders are the
  same text in both. Where they differ the later revision is embedded.

  Go's \<^verbatim>\<open>int64\<close>, \<^verbatim>\<open>uint32\<close>, \<^verbatim>\<open>uint16\<close> and \<^verbatim>\<open>byte\<close> are words of that width;
  \<^verbatim>\<open>int64\<close> is compared as a signed number (\<open>\<le>s\<close>, \<open><s\<close>). A Go \<^verbatim>\<open>string\<close> is an
  immutable sequence of bytes and is modelled as such; \<open>str ''moov''\<close> is the literal.
  A slice \<^verbatim>\<open>[]byte\<close> is a \<open>byte list option\<close>, \<open>None\<close> being the \<^verbatim>\<open>nil\<close> slice. A run-time
  panic is a value of type \<open>panic\<close>; a function that may loop forever returns an
  \<open>option\<close>, \<open>None\<close> meaning that it does not return. Diagnostic printing
  (\<^verbatim>\<open>fmt.Println\<close>) is left out.
\<close>

type_synonym byte = "8 word"
type_synonym uint16 = "16 word"
type_synonym uint32 = "32 word"
type_synonym int64 = "64 word"
type_synonym gostring = "byte list"
type_synonym slice = "byte list option"

definition str :: "string \<Rightarrow> gostring" where
  "str s = map of_char s"

datatype panic =
    IndexOutOfRange
  | SliceBoundsOutOfRange
  | NilPointerDereference
  | MakeSliceLenOutOfRange

datatype error = StatError

definition BoxHeaderSize :: int64 where
  "BoxHeaderSize = 8"

text \<open>
  \<^verbatim>\<open>type Box struct { Name string; Size, Start int64; Reader *Mp4Reader }\<close>.
  The \<^verbatim>\<open>Reader\<close> field is a pointer back to the one reader that owns every box;
  the functions that follow it (\<^verbatim>\<open>b.Reader.ReadBytesAt\<close>) take that reader as an
  argument instead.
\<close>

record Box =
  Name :: gostring
  Size :: int64
  Start :: int64

record FtypBox =
  Ftyp_Box :: Box
  MajorBrand :: gostring
  MinorVersion :: uint32
  CompatibleBrands :: "gostring list"

record MovieHeaderBox =
  Mvhd_Box :: Box
  Mvhd_Version :: byte
  Mvhd_Flags :: uint32
  Mvhd_CreationTime :: uint32
  Mvhd_ModificationTime :: uint32
  Mvhd_Timescale :: uint32
  Mvhd_Duration :: uint32
  Rate :: uint32
  Mvhd_Volume :: uint16

record TrackHeaderBox =
  Tkhd_Box :: Box
  Tkhd_Version :: byte
  Tkhd_Flags :: "byte list"
  Tkhd_CreationTime :: uint32
  Tkhd_ModificationTime :: uint32
  TrackID :: uint32
  Tkhd_Reserved :: uint32
  Tkhd_Duration :: uint32
  Layer :: uint16
  AlternateGroup :: uint16
  Tkhd_Volume :: uint16
  Width :: uint16
  Height :: uint16

record MediaHeaderBox =
  Mdhd_Box :: Box
  Mdhd_Version :: byte
  Mdhd_Flags :: "byte list"
  Mdhd_CreationTime :: uint32
  Mdhd_ModificationTime :: uint32
  Mdhd_Timescale :: uint32
  Mdhd_Duration :: uint32
  Language :: "byte list"
  PreDefined :: uint16

record HandlerBox =
  Hdlr_Box :: Box
  Hdlr_Version :: byte
  Hdlr_Flags :: "byte list"
  Hdlr_PreDefined :: uint32
  HandlerType :: uint32
  Hdlr_Reserved :: "uint32 list"
  TypeName :: gostring

record VideoMediaHeaderBox =
  Vmhd_Box :: Box
  Vmhd_Version :: byte
  Vmhd_Flags :: "byte list"
  GraphicsMode :: uint16
  OpColor :: "uint16 list"

record SoundMediaHeaderBox =
  Smhd_Box :: Box
  Smhd_Version :: byte
  Smhd_Flags :: "byte list"
  Balance :: uint16
  Smhd_Reserved :: uint16

record HintMediaHeaderBox =
  Hmhd_Box :: Box
  Hmhd_Version :: byte
  Hmhd_Flags :: "byte list"

record SampleSizeBox =
  Stsz_Box :: Box
  Stsz_Version :: byte
  Stsz_Flags :: "byte list"
  SampleSize :: uint32
  SampleCount :: uint32

record SampleToChunkBox =
  Stsc_Box :: Box
  Stsc_Version :: byte
  Stsc_Flags :: "byte list"
  Stsc_EntryCount :: uint32

record ChunkOffsetBox =
  Stco_Box :: Box
  Stco_Version :: byte
  Stco_Flags :: "byte list"
  Stco_EntryCount :: uint32

record SampleTableBox =
  Stbl_Box :: Box
  Stsz :: "SampleSizeBox option"
  Stsc :: "SampleToChunkBox option"
  Stco :: "ChunkOffsetBox option"

record MediaInformationBox =
  Minf_Box :: Box
  Vmhd :: "VideoMediaHeaderBox option"
  Smhd :: "SoundMediaHeaderBox option"
  Hmhd :: "HintMediaHeaderBox option"
  Stbl :: "SampleTableBox option"

record MediaBox =
  Mdia_Box :: Box
  Mdhd :: "MediaHeaderBox option"
  Hdlr :: "HandlerBox option"
  Minf :: "MediaInformationBox option"

record TrackBox =
  Trak_Box :: Box
  Tkhd :: "TrackHeaderBox option"
  Mdia :: "MediaBox option"

record MovieBox =
  Moov_Box :: Box
  Mvhd :: "MovieHeaderBox option"
  Trak :: "TrackBox option"

record MediaDataBox =
  Mdat_Box :: Box
  Data :: slice

text \<open>
  \<^verbatim>\<open>Mp4Reader.Reader\<close> is an \<^verbatim>\<open>io.ReaderAt\<close>: an immutable byte source. \<^verbatim>\<open>Open\<close> always
  stores an \<^verbatim>\<open>*os.File\<close> there, whose \<^verbatim>\<open>Stat\<close> may fail; \<^verbatim>\<open>Parse\<close> asks for it by a
  type assertion, so the other readers are kept apart.
\<close>

datatype ReaderAt =
    OsFile "byte list" bool
  | OtherReaderAt "byte list"

fun content :: "ReaderAt \<Rightarrow> byte list" where
  "content (OsFile bs ok) = bs"
| "content (OtherReaderAt bs) = bs"

record Mp4Reader =
  Reader :: ReaderAt
  Ftyp :: "FtypBox option"
  Moov :: "MovieBox option"
  Mdat :: "MediaDataBox option"
  FileSize :: int64

section \<open>Reading bytes\<close>

text \<open>
  \<^verbatim>\<open>ReadAt(buf, off)\<close> of the Go library, as \<^verbatim>\<open>os.File\<close> has it, fills \<^verbatim>\<open>buf\<close> from
  the bytes at \<^verbatim>\<open>off\<close>. It returns an error when the offset is negative or fewer than
  \<^verbatim>\<open>len(buf)\<close> bytes are there; an empty buffer is filled at every offset that is not
  negative. \<open>None\<close> is that error.
\<close>

definition ReadAt :: "ReaderAt \<Rightarrow> nat \<Rightarrow> int64 \<Rightarrow> byte list option" where
  "ReadAt r len off =
     (if 0 \<le> sint off \<and> (len = 0 \<or> nat (sint off) + len \<le> length (content r))
      then Some (take len (drop (nat (sint off)) (content r)))
      else None)"

text \<open>
  The calls of \<^verbatim>\<open>ReadAt\<close> a function makes, in order: offset and length of each.
\<close>

type_synonym reads = "(int64 \<times> int64) list"

text \<open>
  \<^verbatim>\<open>func (m *Mp4Reader) ReadBytesAt(n int64, offset int64) (word []byte)\<close>:
  \<^verbatim>\<open>make([]byte, n)\<close> panics on a negative length and on one beyond the largest
  allocation (\<open>2 ^ 48\<close> bytes on a 64-bit platform); a failed read is printed and the
  named result, still \<^verbatim>\<open>nil\<close>, is returned. Memory is taken to suffice for a length
  that \<^verbatim>\<open>make\<close> accepts.
\<close>

definition ReadBytesAt :: "Mp4Reader \<Rightarrow> int64 \<Rightarrow> int64 \<Rightarrow> panic + (slice \<times> reads)" where
  "ReadBytesAt m n offset =
     (if n <s 0 \<or> 2 ^ 48 <s n then Inl MakeSliceLenOutOfRange
      else Inr (ReadAt (Reader m) (nat (sint n)) offset, [(offset, n)]))"

text \<open>Slicing \<^verbatim>\<open>data[i:j]\<close> and indexing \<^verbatim>\<open>data[i]\<close>; a \<^verbatim>\<open>nil\<close> slice has no element.\<close>

definition bytes_of :: "slice \<Rightarrow> byte list" where
  "bytes_of s = (case s of None \<Rightarrow> [] | Some bs \<Rightarrow> bs)"

definition slc :: "byte list \<Rightarrow> nat \<Rightarrow> nat \<Rightarrow> panic + byte list" where
  "slc data i j =
     (if i \<le> j \<and> j \<le> length data then Inr (take (j - i) (drop i data))
      else Inl SliceBoundsOutOfRange)"

definition idx :: "byte list \<Rightarrow> nat \<Rightarrow> panic + byte" where
  "idx data i = (if i < length data then Inr (data ! i) else Inl IndexOutOfRange)"

definition bind :: "panic + 'a \<Rightarrow> ('a \<Rightarrow> panic + 'b) \<Rightarrow> panic + 'b" where
  "bind x f = (case x of Inl p \<Rightarrow> Inl p | Inr v \<Rightarrow> f v)"

text \<open>\<^verbatim>\<open>binary.BigEndian.Uint32\<close> and \<^verbatim>\<open>Uint16\<close>: they read the first 4 (2) bytes.\<close>

definition Uint32 :: "byte list \<Rightarrow> panic + uint32" where
  "Uint32 b =
     (if length b < 4 then Inl IndexOutOfRange
      else Inr (ucast (b ! 3) OR push_bit 8 (ucast (b ! 2)) OR
                push_bit 16 (ucast (b ! 1)) OR push_bit 24 (ucast (b ! 0))))"

definition Uint16 :: "byte list \<Rightarrow> panic + uint16" where
  "Uint16 b =
     (if length b < 2 then Inl IndexOutOfRange
      else Inr (ucast (b ! 1) OR push_bit 8 (ucast (b ! 0))))"

text \<open>
  \<^verbatim>\<open>func (m *Mp4Reader) ReadBoxAt(offset int64) (boxSize uint32, boxType string)\<close>.
  When the read failed \<^verbatim>\<open>buf\<close> is \<^verbatim>\<open>nil\<close> and \<^verbatim>\<open>buf[0:4]\<close> panics.
\<close>

definition ReadBoxAt :: "Mp4Reader \<Rightarrow> int64 \<Rightarrow> panic + (uint32 \<times> gostring)" where
  "ReadBoxAt m offset =
     bind (ReadBytesAt m BoxHeaderSize offset) (\<lambda>(buf, rs).
     bind (slc (bytes_of buf) 0 4) (\<lambda>b04.
     bind (Uint32 b04) (\<lambda>boxSize.
     bind (slc (bytes_of buf) 4 8) (\<lambda>boxType.
     Inr (boxSize, boxType)))))"

text \<open>
  \<^verbatim>\<open>func readBoxes(m *Mp4Reader, start int64, n int64) (l []*Box)\<close>. The loop
  \<^verbatim>\<open>for offset := start; offset < start+n; { ...; offset += int64(size) }\<close>
  has no bound of its own, so it is a partial function.
\<close>

partial_function (option) readBoxes_loop ::
  "Mp4Reader \<Rightarrow> int64 \<Rightarrow> int64 \<Rightarrow> Box list \<Rightarrow> (panic + Box list) option" where
  "readBoxes_loop m lim offset l =
     (if offset <s lim then
        (case ReadBoxAt m offset of
           Inl p \<Rightarrow> Some (Inl p)
         | Inr (sz, nm) \<Rightarrow>
             readBoxes_loop m lim (offset + ucast sz)
               (l @ [\<lparr>Name = nm, Size = ucast sz, Start = offset\<rparr>]))
      else Some (Inr l))"

definition readBoxes :: "Mp4Reader \<Rightarrow> int64 \<Rightarrow> int64 \<Rightarrow> (panic + Box list) option" where
  "readBoxes m start n = readBoxes_loop m (start + n) start []"

text \<open>\<^verbatim>\<open>func (b *Box) ReadBoxData() []byte\<close>, with \<^verbatim>\<open>b.Reader\<close> given as \<open>m\<close>.\<close>

definition ReadBoxData :: "Mp4Reader \<Rightarrow> Box \<Rightarrow> panic + (slice \<times> reads)" where
  "ReadBoxData m b =
     (if Size b \<le>s BoxHeaderSize then Inr (None, [])
      else ReadBytesAt m (Size b - BoxHeaderSize) (Start b + BoxHeaderSize))"

section \<open>Box decoders\<close>

text \<open>
  Every \<^verbatim>\<open>parse\<close> method returns the Go \<^verbatim>\<open>error\<close> \<^verbatim>\<open>nil\<close> on each of its paths and
  every caller drops that result, so the model returns the decoded box alone. A method
  fills the box it is called on; the model returns the filled box, with the Go zero
  value in the fields the method never assigns. An index or a slice expression out of
  range panics, and the panic ends the whole parse.
\<close>

text \<open>\<^verbatim>\<open>Fixed16\<close> is a \<^verbatim>\<open>uint16\<close>, \<^verbatim>\<open>Fixed32\<close> a \<^verbatim>\<open>uint32\<close>.\<close>

definition fixed16 :: "byte list \<Rightarrow> panic + uint16" where
  "fixed16 bytes = Uint16 bytes"

definition fixed32 :: "byte list \<Rightarrow> panic + uint32" where
  "fixed32 bytes = Uint32 bytes"

text \<open>\<^verbatim>\<open>fmt.Sprintf("%v", n)\<close> of an unsigned number: its decimal digits.\<close>

fun decimal :: "nat \<Rightarrow> gostring" where
  "decimal n = (if n < 10 then [of_nat (48 + n)]
                else decimal (n div 10) @ [of_nat (48 + n mod 10)])"

declare decimal.simps [simp del]

text \<open>\<^verbatim>\<open>func (f Fixed16) String() string\<close> prints \<^verbatim>\<open>uint16(f)>>8\<close>.\<close>

definition Fixed16_String :: "uint16 \<Rightarrow> gostring" where
  "Fixed16_String f = decimal (unat (drop_bit 8 f))"

text \<open>
  \<^verbatim>\<open>func (b *FtypBox) parse() error\<close>. The loop
  \<^verbatim>\<open>for i := 8; i < len(data); i += 4\<close> appends \<^verbatim>\<open>string(data[i:i+4])\<close>.
\<close>

function brands_loop :: "byte list \<Rightarrow> nat \<Rightarrow> gostring list \<Rightarrow> panic + gostring list" where
  "brands_loop data i acc =
     (if i < length data then
        (case slc data i (i + 4) of
           Inl p \<Rightarrow> Inl p
         | Inr s \<Rightarrow> brands_loop data (i + 4) (acc @ [s]))
      else Inr acc)"
  by pat_completeness auto
termination
  by (relation "measure (\<lambda>(data, i, acc). length data - i)") auto

declare brands_loop.simps [simp del]

definition FtypBox_parse :: "Mp4Reader \<Rightarrow> Box \<Rightarrow> panic + FtypBox" where
  "FtypBox_parse m box =
     bind (ReadBoxData m box) (\<lambda>(d, rs).
     bind (slc (bytes_of d) 0 4) (\<lambda>major.
     bind (bind (slc (bytes_of d) 4 8) Uint32) (\<lambda>minor.
     bind (if length (bytes_of d) > 8 then brands_loop (bytes_of d) 8 [] else Inr []) (\<lambda>brands.
     Inr \<lparr>Ftyp_Box = box, MajorBrand = major, MinorVersion = minor,
          CompatibleBrands = brands\<rparr>))))"

text \<open>\<^verbatim>\<open>func (b *MovieHeaderBox) parse() error\<close>.\<close>

definition MovieHeaderBox_parse :: "Mp4Reader \<Rightarrow> Box \<Rightarrow> panic + MovieHeaderBox" where
  "MovieHeaderBox_parse m box =
     bind (ReadBoxData m box) (\<lambda>(d, rs).
     bind (idx (bytes_of d) 0) (\<lambda>version.
     bind (bind (slc (bytes_of d) 12 16) Uint32) (\<lambda>timescale.
     bind (bind (slc (bytes_of d) 16 20) Uint32) (\<lambda>duration.
     bind (bind (slc (bytes_of d) 20 24) fixed32) (\<lambda>rate.
     bind (bind (slc (bytes_of d) 24 26) fixed16) (\<lambda>volume.
     Inr \<lparr>Mvhd_Box = box, Mvhd_Version = version, Mvhd_Flags = 0,
          Mvhd_CreationTime = 0, Mvhd_ModificationTime = 0,
          Mvhd_Timescale = timescale, Mvhd_Duration = duration,
          Rate = rate, Mvhd_Volume = volume\<rparr>))))))"

text \<open>
  The loop \<^verbatim>\<open>for i := 0; i < 3; i++ { b.Flags[i] = data[i+1] }\<close> of the full-box
  decoders.
\<close>

definition flags3 :: "byte list \<Rightarrow> panic + byte list" where
  "flags3 data =
     bind (idx data 1) (\<lambda>f0.
     bind (idx data 2) (\<lambda>f1.
     bind (idx data 3) (\<lambda>f2.
     Inr [f0, f1, f2])))"

text \<open>
  \<^verbatim>\<open>func (b *TrackHeaderBox) parse() error\<close>. Width and height are read by
  \<^verbatim>\<open>fixed16(data[76:80])\<close> and \<^verbatim>\<open>fixed16(data[80:84])\<close>.
\<close>

definition TrackHeaderBox_parse :: "Mp4Reader \<Rightarrow> Box \<Rightarrow> panic + TrackHeaderBox" where
  "TrackHeaderBox_parse m box =
     bind (ReadBoxData m box) (\<lambda>(d, rs).
     bind (idx (bytes_of d) 0) (\<lambda>version.
     bind (flags3 (bytes_of d)) (\<lambda>flags.
     bind (bind (slc (bytes_of d) 4 8) Uint32) (\<lambda>creation.
     bind (bind (slc (bytes_of d) 8 12) Uint32) (\<lambda>modification.
     bind (bind (slc (bytes_of d) 12 16) Uint32) (\<lambda>track.
     bind (bind (slc (bytes_of d) 16 20) Uint32) (\<lambda>reserved.
     bind (bind (slc (bytes_of d) 20 24) Uint32) (\<lambda>duration.
     bind (bind (slc (bytes_of d) 32 34) Uint16) (\<lambda>layer.
     bind (bind (slc (bytes_of d) 34 36) Uint16) (\<lambda>alternate.
     bind (bind (slc (bytes_of d) 36 38) fixed16) (\<lambda>volume.
     bind (bind (slc (bytes_of d) 76 80) fixed16) (\<lambda>width.
     bind (bind (slc (bytes_of d) 80 84) fixed16) (\<lambda>height.
     Inr \<lparr>Tkhd_Box = box, Tkhd_Version = version, Tkhd_Flags = flags,
          Tkhd_CreationTime = creation, Tkhd_ModificationTime = modification,
          TrackID = track, Tkhd_Reserved = reserved, Tkhd_Duration = duration,
          Layer = layer, AlternateGroup = alternate, Tkhd_Volume = volume,
          Width = width, Height = height\<rparr>)))))))))))))"

text \<open>
  \<^verbatim>\<open>func (b *MediaHeaderBox) parse() error\<close>; \<^verbatim>\<open>Timescale\<close> is read from
  \<^verbatim>\<open>data[8:12]\<close> as \<^verbatim>\<open>ModificationTime\<close> is, and \<^verbatim>\<open>Language\<close> is never set.
\<close>

definition MediaHeaderBox_parse :: "Mp4Reader \<Rightarrow> Box \<Rightarrow> panic + MediaHeaderBox" where
  "MediaHeaderBox_parse m box =
     bind (ReadBoxData m box) (\<lambda>(d, rs).
     bind (idx (bytes_of d) 0) (\<lambda>version.
     bind (flags3 (bytes_of d)) (\<lambda>flags.
     bind (bind (slc (bytes_of d) 4 8) Uint32) (\<lambda>creation.
     bind (bind (slc (bytes_of d) 8 12) Uint32) (\<lambda>modification.
     bind (bind (slc (bytes_of d) 8 12) Uint32) (\<lambda>timescale.
     bind (bind (slc (bytes_of d) 12 16) Uint32) (\<lambda>duration.
     bind (bind (slc (bytes_of d) 19 21) Uint16) (\<lambda>predefined.
     Inr \<lparr>Mdhd_Box = box, Mdhd_Version = version, Mdhd_Flags = flags,
          Mdhd_CreationTime = creation, Mdhd_ModificationTime = modification,
          Mdhd_Timescale = timescale, Mdhd_Duration = duration,
          Language = [0, 0, 0], PreDefined = predefined\<rparr>))))))))"

text \<open>\<^verbatim>\<open>func (b *HandlerBox) parse() error\<close> of the later revision.\<close>

definition HandlerBox_parse :: "Mp4Reader \<Rightarrow> Box \<Rightarrow> panic + HandlerBox" where
  "HandlerBox_parse m box =
     bind (ReadBoxData m box) (\<lambda>(d, rs).
     bind (idx (bytes_of d) 0) (\<lambda>version.
     bind (flags3 (bytes_of d)) (\<lambda>flags.
     bind (bind (slc (bytes_of d) 4 8) Uint32) (\<lambda>predefined.
     bind (bind (slc (bytes_of d) 8 12) Uint32) (\<lambda>handler.
     bind (slc (bytes_of d) 8 12) (\<lambda>name.
     Inr \<lparr>Hdlr_Box = box, Hdlr_Version = version, Hdlr_Flags = flags,
          Hdlr_PreDefined = predefined, HandlerType = handler,
          Hdlr_Reserved = [0, 0, 0], TypeName = name\<rparr>))))))"

text \<open>The three media header decoders have an empty body.\<close>

definition VideoMediaHeaderBox_parse :: "Mp4Reader \<Rightarrow> Box \<Rightarrow> panic + VideoMediaHeaderBox" where
  "VideoMediaHeaderBox_parse m box =
     Inr \<lparr>Vmhd_Box = box, Vmhd_Version = 0, Vmhd_Flags = [0, 0, 0],
          GraphicsMode = 0, OpColor = [0, 0, 0]\<rparr>"

definition SoundMediaHeaderBox_parse :: "Mp4Reader \<Rightarrow> Box \<Rightarrow> panic + SoundMediaHeaderBox" where
  "SoundMediaHeaderBox_parse m box =
     Inr \<lparr>Smhd_Box = box, Smhd_Version = 0, Smhd_Flags = [0, 0, 0],
          Balance = 0, Smhd_Reserved = 0\<rparr>"

definition HintMediaHeaderBox_parse :: "Mp4Reader \<Rightarrow> Box \<Rightarrow> panic + HintMediaHeaderBox" where
  "HintMediaHeaderBox_parse m box =
     Inr \<lparr>Hmhd_Box = box, Hmhd_Version = 0, Hmhd_Flags = [0, 0, 0]\<rparr>"

text \<open>
  The sample table decoders of the later revision end in a loop whose body is a
  comment: \<^verbatim>\<open>for i := uint32(1); i <= b.SampleCount; i++ { }\<close>. It reads no entry,
  and with a count of \<^verbatim>\<open>0xFFFFFFFF\<close> the \<^verbatim>\<open>uint32\<close> counter wraps and it never ends.
\<close>

partial_function (option) empty_loop :: "uint32 \<Rightarrow> uint32 \<Rightarrow> unit option" where
  "empty_loop i n = (if i \<le> n then empty_loop (i + 1) n else Some ())"

definition after_loop :: "uint32 \<Rightarrow> panic + 'a \<Rightarrow> (panic + 'a) option" where
  "after_loop n r =
     (case r of
        Inl p \<Rightarrow> Some (Inl p)
      | Inr v \<Rightarrow> (case empty_loop 1 n of None \<Rightarrow> None | Some u \<Rightarrow> Some (Inr v)))"

definition SampleSizeBox_fields :: "Mp4Reader \<Rightarrow> Box \<Rightarrow> panic + SampleSizeBox" where
  "SampleSizeBox_fields m box =
     bind (ReadBoxData m box) (\<lambda>(d, rs).
     bind (idx (bytes_of d) 0) (\<lambda>version.
     bind (flags3 (bytes_of d)) (\<lambda>flags.
     bind (bind (slc (bytes_of d) 4 8) Uint32) (\<lambda>sampleSize.
     bind (bind (slc (bytes_of d) 8 12) Uint32) (\<lambda>sampleCount.
     Inr \<lparr>Stsz_Box = box, Stsz_Version = version, Stsz_Flags = flags,
          SampleSize = sampleSize, SampleCount = sampleCount\<rparr>)))))"

definition SampleSizeBox_parse :: "Mp4Reader \<Rightarrow> Box \<Rightarrow> (panic + SampleSizeBox) option" where
  "SampleSizeBox_parse m box =
     (case SampleSizeBox_fields m box of
        Inl p \<Rightarrow> Some (Inl p)
      | Inr b \<Rightarrow> after_loop (SampleCount b) (Inr b))"

definition SampleToChunkBox_fields :: "Mp4Reader \<Rightarrow> Box \<Rightarrow> panic + SampleToChunkBox" where
  "SampleToChunkBox_fields m box =
     bind (ReadBoxData m box) (\<lambda>(d, rs).
     bind (idx (bytes_of d) 0) (\<lambda>version.
     bind (flags3 (bytes_of d)) (\<lambda>flags.
     bind (bind (slc (bytes_of d) 4 8) Uint32) (\<lambda>entryCount.
     Inr \<lparr>Stsc_Box = box, Stsc_Version = version, Stsc_Flags = flags,
          Stsc_EntryCount = entryCount\<rparr>))))"

definition SampleToChunkBox_parse :: "Mp4Reader \<Rightarrow> Box \<Rightarrow> (panic + SampleToChunkBox) option" where
  "SampleToChunkBox_parse m box =
     (case SampleToChunkBox_fields m box of
        Inl p \<Rightarrow> Some (Inl p)
      | Inr b \<Rightarrow> after_loop (Stsc_EntryCount b) (Inr b))"

definition ChunkOffsetBox_fields :: "Mp4Reader \<Rightarrow> Box \<Rightarrow> panic + ChunkOffsetBox" where
  "ChunkOffsetBox_fields m box =
     bind (ReadBoxData m box) (\<lambda>(d, rs).
     bind (idx (bytes_of d) 0) (\<lambda>version.
     bind (flags3 (bytes_of d)) (\<lambda>flags.
     bind (bind (slc (bytes_of d) 4 8) Uint32) (\<lambda>entryCount.
     Inr \<lparr>Stco_Box = box, Stco_Version = version, Stco_Flags = flags,
          Stco_EntryCount = entryCount\<rparr>))))"

definition ChunkOffsetBox_parse :: "Mp4Reader \<Rightarrow> Box \<Rightarrow> (panic + ChunkOffsetBox) option" where
  "ChunkOffsetBox_parse m box =
     (case ChunkOffsetBox_fields m box of
        Inl p \<Rightarrow> Some (Inl p)
      | Inr b \<Rightarrow> after_loop (Stco_EntryCount b) (Inr b))"

text \<open>\<^verbatim>\<open>func (b *MediaDataBox) parse() error\<close> keeps the whole payload.\<close>

definition MediaDataBox_parse :: "Mp4Reader \<Rightarrow> Box \<Rightarrow> panic + MediaDataBox" where
  "MediaDataBox_parse m box =
     bind (ReadBoxData m box) (\<lambda>(d, rs). Inr \<lparr>Mdat_Box = box, Data = d\<rparr>)"

section \<open>Container boxes\<close>

text \<open>
  A container reads its children with \<^verbatim>\<open>readBoxes\<close> and goes through them in order,
  \<^verbatim>\<open>switch box.Name\<close> choosing the decoder; a later child of the same name replaces
  the earlier one. \<open>bindO\<close> passes on a panic and a scan that does not return.
\<close>

definition bindO :: "(panic + 'a) option \<Rightarrow> ('a \<Rightarrow> (panic + 'b) option) \<Rightarrow> (panic + 'b) option" where
  "bindO x f = (case x of None \<Rightarrow> None | Some (Inl p) \<Rightarrow> Some (Inl p) | Some (Inr v) \<Rightarrow> f v)"

definition children :: "Mp4Reader \<Rightarrow> Box \<Rightarrow> (panic + Box list) option" where
  "children m b = readBoxes m (Start b + BoxHeaderSize) (Size b - BoxHeaderSize)"

fun SampleTableBox_loop ::
  "Mp4Reader \<Rightarrow> Box list \<Rightarrow> SampleTableBox \<Rightarrow> (panic + SampleTableBox) option" where
  "SampleTableBox_loop m [] b = Some (Inr b)"
| "SampleTableBox_loop m (box # boxes) b =
     (if Name box = str ''stsz'' then
        bindO (SampleSizeBox_parse m box) (\<lambda>c. SampleTableBox_loop m boxes (b\<lparr>Stsz := Some c\<rparr>))
      else if Name box = str ''stsc'' then
        bindO (SampleToChunkBox_parse m box) (\<lambda>c. SampleTableBox_loop m boxes (b\<lparr>Stsc := Some c\<rparr>))
      else if Name box = str ''stco'' then
        bindO (ChunkOffsetBox_parse m box) (\<lambda>c. SampleTableBox_loop m boxes (b\<lparr>Stco := Some c\<rparr>))
      else SampleTableBox_loop m boxes b)"

definition SampleTableBox_parse :: "Mp4Reader \<Rightarrow> Box \<Rightarrow> (panic + SampleTableBox) option" where
  "SampleTableBox_parse m box =
     bindO (children m box) (\<lambda>boxes.
       SampleTableBox_loop m boxes \<lparr>Stbl_Box = box, Stsz = None, Stsc = None, Stco = None\<rparr>)"

fun MediaInformationBox_loop ::
  "Mp4Reader \<Rightarrow> Box list \<Rightarrow> MediaInformationBox \<Rightarrow> (panic + MediaInformationBox) option" where
  "MediaInformationBox_loop m [] b = Some (Inr b)"
| "MediaInformationBox_loop m (box # boxes) b =
     (if Name box = str ''vmhd'' then
        bindO (Some (VideoMediaHeaderBox_parse m box))
          (\<lambda>c. MediaInformationBox_loop m boxes (b\<lparr>Vmhd := Some c\<rparr>))
      else if Name box = str ''smhd'' then
        bindO (Some (SoundMediaHeaderBox_parse m box))
          (\<lambda>c. MediaInformationBox_loop m boxes (b\<lparr>Smhd := Some c\<rparr>))
      else if Name box = str ''hmhd'' then
        bindO (Some (HintMediaHeaderBox_parse m box))
          (\<lambda>c. MediaInformationBox_loop m boxes (b\<lparr>Hmhd := Some c\<rparr>))
      else if Name box = str ''stbl'' then
        bindO (SampleTableBox_parse m box)
          (\<lambda>c. MediaInformationBox_loop m boxes (b\<lparr>Stbl := Some c\<rparr>))
      else MediaInformationBox_loop m boxes b)"

definition MediaInformationBox_parse ::
  "Mp4Reader \<Rightarrow> Box \<Rightarrow> (panic + MediaInformationBox) option" where
  "MediaInformationBox_parse m box =
     bindO (children m box) (\<lambda>boxes.
       MediaInformationBox_loop m boxes
         \<lparr>Minf_Box = box, Vmhd = None, Smhd = None, Hmhd = None, Stbl = None\<rparr>)"

text \<open>\<^verbatim>\<open>func (b *MediaBox) parse() error\<close> of the later revision, which decodes \<^verbatim>\<open>hdlr\<close>.\<close>

fun MediaBox_loop :: "Mp4Reader \<Rightarrow> Box list \<Rightarrow> MediaBox \<Rightarrow> (panic + MediaBox) option" where
  "MediaBox_loop m [] b = Some (Inr b)"
| "MediaBox_loop m (box # boxes) b =
     (if Name box = str ''mdhd'' then
        bindO (Some (MediaHeaderBox_parse m box)) (\<lambda>c. MediaBox_loop m boxes (b\<lparr>Mdhd := Some c\<rparr>))
      else if Name box = str ''hdlr'' then
        bindO (Some (HandlerBox_parse m box)) (\<lambda>c. MediaBox_loop m boxes (b\<lparr>Hdlr := Some c\<rparr>))
      else if Name box = str ''minf'' then
        bindO (MediaInformationBox_parse m box) (\<lambda>c. MediaBox_loop m boxes (b\<lparr>Minf := Some c\<rparr>))
      else MediaBox_loop m boxes b)"

definition MediaBox_parse :: "Mp4Reader \<Rightarrow> Box \<Rightarrow> (panic + MediaBox) option" where
  "MediaBox_parse m box =
     bindO (children m box) (\<lambda>boxes.
       MediaBox_loop m boxes \<lparr>Mdia_Box = box, Mdhd = None, Hdlr = None, Minf = None\<rparr>)"

fun TrackBox_loop :: "Mp4Reader \<Rightarrow> Box list \<Rightarrow> TrackBox \<Rightarrow> (panic + TrackBox) option" where
  "TrackBox_loop m [] b = Some (Inr b)"
| "TrackBox_loop m (box # boxes) b =
     (if Name box = str ''tkhd'' then
        bindO (Some (TrackHeaderBox_parse m box)) (\<lambda>c. TrackBox_loop m boxes (b\<lparr>Tkhd := Some c\<rparr>))
      else if Name box = str ''mdia'' then
        bindO (MediaBox_parse m box) (\<lambda>c. TrackBox_loop m boxes (b\<lparr>Mdia := Some c\<rparr>))
      else TrackBox_loop m boxes b)"

definition TrackBox_parse :: "Mp4Reader \<Rightarrow> Box \<Rightarrow> (panic + TrackBox) option" where
  "TrackBox_parse m box =
     bindO (children m box) (\<lambda>boxes.
       TrackBox_loop m boxes \<lparr>Trak_Box = box, Tkhd = None, Mdia = None\<rparr>)"

text \<open>\<^verbatim>\<open>func parseTrack(box *Box) *TrackBox\<close>.\<close>

definition parseTrack :: "Mp4Reader \<Rightarrow> Box \<Rightarrow> (panic + TrackBox) option" where
  "parseTrack m box = TrackBox_parse m box"

text \<open>
  The test \<^verbatim>\<open>trak.Mdia.Hdlr.TypeName == "vide"\<close> of \<^verbatim>\<open>MovieBox.parse\<close>: it follows two
  pointers, and a \<^verbatim>\<open>nil\<close> one panics.
\<close>

definition isVideo :: "TrackBox \<Rightarrow> panic + bool" where
  "isVideo trak =
     (case Mdia trak of
        None \<Rightarrow> Inl NilPointerDereference
      | Some mdia \<Rightarrow>
          (case Hdlr mdia of
             None \<Rightarrow> Inl NilPointerDereference
           | Some hdlr \<Rightarrow> Inr (TypeName hdlr = str ''vide'')))"

text \<open>
  \<^verbatim>\<open>func (b *MovieBox) parse() error\<close> of the later revision:
  \<^verbatim>\<open>case "trak": if trak := parseTrack(box); trak.Mdia.Hdlr.TypeName == "vide" { b.Trak = trak }\<close>.
\<close>

fun MovieBox_loop :: "Mp4Reader \<Rightarrow> Box list \<Rightarrow> MovieBox \<Rightarrow> (panic + MovieBox) option" where
  "MovieBox_loop m [] b = Some (Inr b)"
| "MovieBox_loop m (box # boxes) b =
     (if Name box = str ''mvhd'' then
        bindO (Some (MovieHeaderBox_parse m box)) (\<lambda>c. MovieBox_loop m boxes (b\<lparr>Mvhd := Some c\<rparr>))
      else if Name box = str ''trak'' then
        bindO (parseTrack m box) (\<lambda>trak.
        bindO (Some (isVideo trak)) (\<lambda>v.
          MovieBox_loop m boxes (if v then b\<lparr>Trak := Some trak\<rparr> else b)))
      else MovieBox_loop m boxes b)"

definition MovieBox_parse :: "Mp4Reader \<Rightarrow> Box \<Rightarrow> (panic + MovieBox) option" where
  "MovieBox_parse m box =
     bindO (children m box) (\<lambda>boxes.
       MovieBox_loop m boxes \<lparr>Moov_Box = box, Mvhd = None, Trak = None\<rparr>)"

text \<open>
  \<^verbatim>\<open>func (m *Mp4Reader) Parse() error\<close>. The result is the Go \<^verbatim>\<open>error\<close> (\<open>None\<close> for
  \<^verbatim>\<open>nil\<close>) and the reader with its three fields filled.
\<close>

fun Parse_loop :: "Mp4Reader \<Rightarrow> Box list \<Rightarrow> (panic + Mp4Reader) option" where
  "Parse_loop m [] = Some (Inr m)"
| "Parse_loop m (box # boxes) =
     (if Name box = str ''ftyp'' then
        bindO (Some (FtypBox_parse m box)) (\<lambda>c. Parse_loop (m\<lparr>Ftyp := Some c\<rparr>) boxes)
      else if Name box = str ''moov'' then
        bindO (MovieBox_parse m box) (\<lambda>c. Parse_loop (m\<lparr>Moov := Some c\<rparr>) boxes)
      else if Name box = str ''mdat'' then
        bindO (Some (MediaDataBox_parse m box)) (\<lambda>c. Parse_loop (m\<lparr>Mdat := Some c\<rparr>) boxes)
      else Parse_loop m boxes)"

definition Parse_boxes :: "Mp4Reader \<Rightarrow> (panic + (error option \<times> Mp4Reader)) option" where
  "Parse_boxes m =
     bindO (readBoxes m 0 (FileSize m)) (\<lambda>boxes.
     bindO (Parse_loop m boxes) (\<lambda>m'. Some (Inr (None, m'))))"

definition Parse :: "Mp4Reader \<Rightarrow> (panic + (error option \<times> Mp4Reader)) option" where
  "Parse m =
     (if FileSize m = 0 then
        (case Reader m of
           OsFile bs ok \<Rightarrow>
             if ok then Parse_boxes (m\<lparr>FileSize := of_nat (length bs)\<rparr>)
             else Some (Inr (Some StatError, m))
         | OtherReaderAt bs \<Rightarrow> Parse_boxes m)
      else Parse_boxes m)"

section \<open>Writing the stream\<close>

text \<open>
  \<^verbatim>\<open>func extractVideoChunks(mp4 *Mp4Reader) (videoStream []byte)\<close>:
  \<^verbatim>\<open>chunks := bytes.NewBuffer([]byte{0, 0, 0, 1}); chunks.Write(mp4.Mdat.Data[4:])\<close>,
  then a comment (\<^verbatim>\<open>@todo Extract videChunks, build full video stream and convert in
  Annex-B format\<close>), then \<^verbatim>\<open>return chunks.Bytes()\<close>. \<^verbatim>\<open>main\<close> of the older revision
  builds the same buffer in place.
\<close>

definition extractVideoChunks :: "Mp4Reader \<Rightarrow> panic + byte list" where
  "extractVideoChunks mp4 =
     (case Mdat mp4 of
        None \<Rightarrow> Inl NilPointerDereference
      | Some mdat \<Rightarrow>
          bind (slc (bytes_of (Data mdat)) 4 (length (bytes_of (Data mdat)))) (\<lambda>rest.
          Inr ([0, 0, 0, 1] @ rest)))"

section \<open>Properties of a scan, and example containers\<close>

declare readBoxes_loop.simps [code]
declare empty_loop.simps [code]

text \<open>
  \<open>chained lim off bs\<close>: the boxes \<open>bs\<close> are what a scan that stands at offset \<open>off\<close>
  with the range end \<open>lim\<close> goes on to record: each box starts where the scan stands,
  at a readable (non-negative) offset below \<open>lim\<close>, its size is that of a \<^verbatim>\<open>uint32\<close>,
  and the scan stops at the first offset that is not below \<open>lim\<close>.
\<close>

fun chained :: "int64 \<Rightarrow> int64 \<Rightarrow> Box list \<Rightarrow> bool" where
  "chained lim off [] = (\<not> off <s lim)"
| "chained lim off (b # bs) =
     (off <s lim \<and> 0 \<le> sint off \<and> Start b = off \<and>
      0 \<le> sint (Size b) \<and> sint (Size b) < 2 ^ 32 \<and> chained lim (off + Size b) bs)"

text \<open>
  \<open>reaches lim off bs e\<close>: a scan that stands at offset \<open>off\<close> records the boxes \<open>bs\<close>,
  each at the offset where the scan stands, below \<open>lim\<close>, and then stands at \<open>e\<close>.
\<close>

fun reaches :: "int64 \<Rightarrow> int64 \<Rightarrow> Box list \<Rightarrow> int64 \<Rightarrow> bool" where
  "reaches lim off [] e = (e = off)"
| "reaches lim off (b # bs) e =
     (off <s lim \<and> Start b = off \<and> reaches lim (off + Size b) bs e)"

text \<open>\<open>declared m b\<close>: box \<open>b\<close> has the name and the size that the header at its start holds.\<close>

definition declared :: "Mp4Reader \<Rightarrow> Box \<Rightarrow> bool" where
  "declared m b =
     (case ReadBoxAt m (Start b) of
        Inl p \<Rightarrow> False
      | Inr (sz, nm) \<Rightarrow> Name b = nm \<and> Size b = ucast sz)"

text \<open>A reader as \<^verbatim>\<open>Open\<close> builds it: a file, every other field zero.\<close>

definition reader_of :: "byte list \<Rightarrow> Mp4Reader" where
  "reader_of bs =
     \<lparr>Reader = OsFile bs True, Ftyp = None, Moov = None, Mdat = None, FileSize = 0\<rparr>"

text \<open>Two empty boxes, \<^verbatim>\<open>free\<close> and \<^verbatim>\<open>skip\<close>, of 8 bytes each.\<close>

definition two_boxes_bytes :: "byte list" where
  "two_boxes_bytes = [0, 0, 0, 8, 102, 114, 101, 101, 0, 0, 0, 8, 115, 107, 105, 112]"

text \<open>A header that declares size 4, in a range of 12 bytes.\<close>

definition size4_bytes :: "byte list" where
  "size4_bytes = [0, 0, 0, 4, 102, 114, 101, 101, 0, 0, 0, 8]"

text \<open>An empty \<^verbatim>\<open>free\<close> box followed by a header that declares size 4 and ends the file.\<close>

definition size4_last_bytes :: "byte list" where
  "size4_last_bytes = [0, 0, 0, 8, 102, 114, 101, 101, 0, 0, 0, 4, 115, 107, 105, 112]"



text \<open>
  A \<^verbatim>\<open>moov\<close> box with two tracks, each \<^verbatim>\<open>trak(mdia(hdlr))\<close> with handler type
  \<^verbatim>\<open>vide\<close>: the first track is at offset 8, the second at offset 44.
\<close>

definition hdlr_vide :: "byte list" where
  "hdlr_vide =
     [0, 0, 0, 20, 104, 100, 108, 114, 0, 0, 0, 0, 0, 0, 0, 0, 118, 105, 100, 101]"

definition trak_vide :: "byte list" where
  "trak_vide = [0, 0, 0, 36, 116, 114, 97, 107, 0, 0, 0, 28, 109, 100, 105, 97] @ hdlr_vide"

definition two_video_bytes :: "byte list" where
  "two_video_bytes = [0, 0, 0, 80, 109, 111, 111, 118] @ trak_vide @ trak_vide"


text \<open>
  A \<^verbatim>\<open>tkhd\<close> box whose 16.16 width field is \<^verbatim>\<open>07 80 80 00\<close> (1920.5) and whose height
  field is \<^verbatim>\<open>04 38 40 00\<close> (1080.25).
\<close>

definition tkhd_bytes :: "byte list" where
  "tkhd_bytes =
     [0, 0, 0, 92, 116, 107, 104, 100] @ replicate 76 0 @ [7, 128, 128, 0, 4, 56, 64, 0]"

text \<open>
  A \<^verbatim>\<open>stbl\<close> box with the three tables of the sample: \<^verbatim>\<open>stsz\<close> with default size 0
  and the sizes 10, 20, 30; \<^verbatim>\<open>stsc\<close> with the runs (1, 2, 1) and (2, 1, 1); \<^verbatim>\<open>stco\<close>
  with the offsets 1000 and 1030.
\<close>

definition stbl_bytes :: "byte list" where
  "stbl_bytes =
     [0, 0, 0, 104, 115, 116, 98, 108,
      0, 0, 0, 32, 115, 116, 115, 122, 0, 0, 0, 0, 0, 0, 0, 0, 0, 0, 0, 3,
        0, 0, 0, 10, 0, 0, 0, 20, 0, 0, 0, 30,
      0, 0, 0, 40, 115, 116, 115, 99, 0, 0, 0, 0, 0, 0, 0, 2,
        0, 0, 0, 1, 0, 0, 0, 2, 0, 0, 0, 1, 0, 0, 0, 2, 0, 0, 0, 1, 0, 0, 0, 1,
      0, 0, 0, 24, 115, 116, 99, 111, 0, 0, 0, 0, 0, 0, 0, 2, 0, 0, 3, 232, 0, 0, 4, 6]"

text \<open>
  A file that is one \<^verbatim>\<open>mdat\<close> box holding one sample: a unit of 2 bytes (\<^verbatim>\<open>AA BB\<close>) and
  a unit of 3 bytes (\<^verbatim>\<open>CC DD EE\<close>), each after its 4-byte big-endian length.
\<close>

definition mdat_bytes :: "byte list" where
  "mdat_bytes =
     [0, 0, 0, 21, 109, 100, 97, 116, 0, 0, 0, 2, 170, 187, 0, 0, 0, 3, 204, 221, 238]"









section \<open>Facts about words and the header reader\<close>

lemma ReadBoxAt_Inr:
  "ReadBoxAt m off = Inr (sz, nm) \<Longrightarrow>
     0 \<le> sint off \<and> nat (sint off) + 8 \<le> length (content (Reader m))"
  by (auto simp: ReadBoxAt_def ReadBytesAt_def ReadAt_def bind_def slc_def bytes_of_def
      BoxHeaderSize_def word_sless_alt split: if_splits sum.splits option.splits)

lemma ReadBoxAt_Inl:
  "ReadBoxAt m off = Inl p \<Longrightarrow> p = SliceBoundsOutOfRange"
  by (auto simp: ReadBoxAt_def ReadBytesAt_def ReadAt_def bind_def slc_def bytes_of_def
      BoxHeaderSize_def word_sless_alt Uint32_def split: if_splits sum.splits option.splits)

lemma ReadBoxAt_Inl_ReadAt:
  "ReadBoxAt m off = Inl p \<Longrightarrow> ReadAt (Reader m) 8 off = None"
  by (auto simp: ReadBoxAt_def ReadBytesAt_def ReadAt_def bind_def slc_def bytes_of_def
      BoxHeaderSize_def word_sless_alt Uint32_def split: if_splits sum.splits option.splits)

lemma ReadAt_None_ReadBoxAt:
  "ReadAt (Reader m) 8 off = None \<Longrightarrow> ReadBoxAt m off = Inl SliceBoundsOutOfRange"
  by (simp add: ReadBoxAt_def ReadBytesAt_def bind_def slc_def bytes_of_def
      BoxHeaderSize_def word_sless_alt)

lemma declared_ReadBoxAt:
  "declared m b \<Longrightarrow> \<exists>sz. ReadBoxAt m (Start b) = Inr (sz, Name b) \<and> Size b = ucast sz"
  by (auto simp: declared_def split: sum.splits)

lemma ReadBoxAt_Reader:
  "Reader m = Reader m' \<Longrightarrow> ReadBoxAt m off = ReadBoxAt m' off"
  by (simp add: ReadBoxAt_def ReadBytesAt_def)

lemma sint_ucast_32_64:
  "0 \<le> sint (ucast (sz :: uint32) :: int64) \<and> sint (ucast sz :: int64) < 2 ^ 32"
proof -
  have b: "0 \<le> uint sz" "uint sz < 2 ^ 32"
    using uint_lt2p [of sz] by simp_all
  have "sint (ucast sz :: int64) = signed_take_bit 63 (uint sz)"
    by (simp add: signed_ucast_eq)
  also have "\<dots> = uint sz"
  proof (rule signed_take_bit_int_eq_self)
    show "- (2 ^ 63) \<le> uint sz" by (rule order_trans [of _ 0]) simp_all
    show "uint sz < 2 ^ 63" using b by simp
  qed
  finally show ?thesis using b by simp
qed

lemma sint_add_nowrap:
  fixes a s :: int64
  assumes "0 \<le> sint a" "0 \<le> sint s" "sint s < 2 ^ 32" "0 \<le> sint (a + s)"
  shows "sint (a + s) = sint a + sint s"
proof -
  have e: "sint (a + s) = signed_take_bit 63 (sint a + sint s)"
    by (simp add: sint_word_add)
  have u: "sint a < 2 ^ 63"
    using sint_lt [of a] by simp
  show ?thesis
  proof (cases "sint a + sint s < 2 ^ 63")
    case True
    then show ?thesis
      using assms e by (simp add: signed_take_bit_int_eq_self)
  next
    case False
    then have "2 ^ 63 \<le> sint a + sint s" by simp
    then have "signed_take_bit 63 (sint a + sint s) \<le> sint a + sint s - 2 ^ Suc 63"
      by (rule signed_take_bit_int_less_eq)
    then have "sint (a + s) \<le> sint a + sint s - 18446744073709551616"
      using e by simp
    moreover have "sint a < 9223372036854775808" "sint s < 4294967296"
      using u assms by simp_all
    ultimately show ?thesis using assms(4) by linarith
  qed
qed

section \<open>The invariant of the scanning loop\<close>

lemma chained_next_nonneg:
  assumes "chained lim off (b # bs)"
  shows "0 \<le> sint (off + Size b)"
proof (cases bs)
  case Nil
  then have "\<not> off + Size b <s lim" "off <s lim" "0 \<le> sint off"
    using assms by auto
  then show ?thesis by (simp add: word_sless_alt)
next
  case (Cons c cs)
  then show ?thesis using assms by auto
qed

lemma chained_nowrap:
  assumes "chained lim off (b # bs)"
  shows "sint (off + Size b) = sint off + sint (Size b)"
  using assms chained_next_nonneg [OF assms]
  by (intro sint_add_nowrap) auto

lemma chained_index:
  "chained lim off bs \<Longrightarrow> Suc i < length bs \<Longrightarrow>
     Start (bs ! Suc i) = Start (bs ! i) + Size (bs ! i) \<and>
     sint (Start (bs ! Suc i)) = sint (Start (bs ! i)) + sint (Size (bs ! i))"
proof (induction bs arbitrary: off i)
  case Nil
  then show ?case by simp
next
  case (Cons b bs)
  obtain c cs where bs: "bs = c # cs" using Cons.prems by (cases bs) auto
  show ?case
  proof (cases i)
    case 0
    have "Start c = off + Size b" "Start b = off"
      using Cons.prems bs by auto
    then show ?thesis
      using 0 bs chained_nowrap [OF Cons.prems(1)] by simp
  next
    case (Suc j)
    then show ?thesis using Cons by auto
  qed
qed

lemma chained_in_range:
  "chained lim off bs \<Longrightarrow> b \<in> set bs \<Longrightarrow> Start b <s lim \<and> 0 \<le> sint (Start b)"
  by (induction bs arbitrary: off) auto

lemma chained_last:
  "chained lim off bs \<Longrightarrow> bs \<noteq> [] \<Longrightarrow> \<not> Start (last bs) + Size (last bs) <s lim"
proof (induction bs arbitrary: off)
  case Nil
  then show ?case by simp
next
  case (Cons b bs)
  then show ?case by (cases bs) auto
qed

lemma readBoxes_loop_inv:
  assumes "readBoxes_loop m lim off l = Some r"
  shows "\<forall>res. r = Inr res \<longrightarrow>
        (\<exists>new. res = l @ new \<and> chained lim off new \<and> list_all (declared m) new)"
proof (rule readBoxes_loop.raw_induct [OF _ assms, where
    P = "\<lambda>m lim off l r. \<forall>res. r = Inr res \<longrightarrow>
        (\<exists>new. res = l @ new \<and> chained lim off new \<and> list_all (declared m) new)"])
  fix loop m lim offset l r
  assume ih: "\<And>m lim off l r. loop m lim off l = Some r \<Longrightarrow> \<forall>res. r = Inr res \<longrightarrow>
        (\<exists>new. res = l @ new \<and> chained lim off new \<and> list_all (declared m) new)"
    and body: "(if offset <s lim
      then case ReadBoxAt m offset of Inl p \<Rightarrow> Some (Inl p)
           | Inr (sz, nm) \<Rightarrow>
               loop m lim (offset + ucast sz)
                (l @ [\<lparr>Name = nm, Size = ucast sz, Start = offset\<rparr>])
      else Some (Inr l)) = Some r"
  show "\<forall>res. r = Inr res \<longrightarrow>
        (\<exists>new. res = l @ new \<and> chained lim offset new \<and> list_all (declared m) new)"
  proof (intro allI impI)
    fix res assume r: "r = Inr res"
    show "\<exists>new. res = l @ new \<and> chained lim offset new \<and> list_all (declared m) new"
    proof (cases "offset <s lim")
      case False
      then show ?thesis using body r by simp
    next
      case True
      show ?thesis
      proof (cases "ReadBoxAt m offset")
        case (Inl p)
        then show ?thesis using body True r by auto
      next
        case (Inr v)
        obtain sz nm where v: "v = (sz, nm)" by (cases v)
        let ?b = "\<lparr>Name = nm, Size = ucast sz, Start = offset\<rparr>"
        have rec: "loop m lim (offset + ucast sz) (l @ [?b]) = Some r"
          using body True Inr v by simp
        from ih [OF rec] r obtain new where
          n: "res = (l @ [?b]) @ new" "chained lim (offset + ucast sz) new"
             "list_all (declared m) new"
          by blast
        have "0 \<le> sint offset"
          using ReadBoxAt_Inr Inr v by blast
        then have "chained lim offset (?b # new)"
          using n True sint_ucast_32_64 [of sz] by simp
        moreover have "declared m ?b"
          using Inr v by (simp add: declared_def)
        ultimately show ?thesis using n by (intro exI [of _ "?b # new"]) simp
      qed
    qed
  qed
qed

lemma readBoxes_loop_Reader:
  assumes "readBoxes_loop m lim off l = Some r"
  shows "\<forall>m' :: Mp4Reader. Reader m = Reader m' \<longrightarrow> readBoxes_loop m' lim off l = Some r"
proof (rule readBoxes_loop.raw_induct [OF _ assms, where
    P = "\<lambda>m lim off l r. \<forall>m' :: Mp4Reader. Reader m = Reader m' \<longrightarrow>
           readBoxes_loop m' lim off l = Some r"])
  fix loop m lim offset l r
  assume ih: "\<And>m lim off l r. loop m lim off l = Some r \<Longrightarrow>
        \<forall>m' :: Mp4Reader. Reader m = Reader m' \<longrightarrow> readBoxes_loop m' lim off l = Some r"
    and body: "(if offset <s lim
      then case ReadBoxAt m offset of Inl p \<Rightarrow> Some (Inl p)
           | Inr (sz, nm) \<Rightarrow>
               loop m lim (offset + ucast sz)
                (l @ [\<lparr>Name = nm, Size = ucast sz, Start = offset\<rparr>])
      else Some (Inr l)) = Some r"
  show "\<forall>m' :: Mp4Reader. Reader m = Reader m' \<longrightarrow> readBoxes_loop m' lim offset l = Some r"
  proof (intro allI impI)
    fix m' :: Mp4Reader
    assume e: "Reader m = Reader m'"
    have rb: "ReadBoxAt m' offset = ReadBoxAt m offset"
      by (rule ReadBoxAt_Reader [OF e [symmetric]])
    show "readBoxes_loop m' lim offset l = Some r"
    proof (cases "offset <s lim")
      case False
      then show ?thesis using body by (subst readBoxes_loop.simps) simp
    next
      case True
      show ?thesis
      proof (cases "ReadBoxAt m offset")
        case (Inl p)
        then show ?thesis using body True rb by (subst readBoxes_loop.simps) simp
      next
        case (Inr v)
        obtain sz nm where v: "v = (sz, nm)" by (cases v)
        have "loop m lim (offset + ucast sz)
                (l @ [\<lparr>Name = nm, Size = ucast sz, Start = offset\<rparr>]) = Some r"
          using body True Inr v by simp
        then have "readBoxes_loop m' lim (offset + ucast sz)
                (l @ [\<lparr>Name = nm, Size = ucast sz, Start = offset\<rparr>]) = Some r"
          using ih e by blast
        then show ?thesis using True Inr v rb by (subst readBoxes_loop.simps) simp
      qed
    qed
  qed
qed


lemma readBoxes_loop_Inl:
  assumes "readBoxes_loop m lim off l = Some r"
  shows "\<forall>p. r = Inl p \<longrightarrow> p = SliceBoundsOutOfRange"
proof (rule readBoxes_loop.raw_induct [OF _ assms, where
    P = "\<lambda>m lim off l r. \<forall>p. r = Inl p \<longrightarrow> p = SliceBoundsOutOfRange"])
  fix loop m lim offset l r
  assume ih: "\<And>m lim off l r. loop m lim off l = Some r \<Longrightarrow>
        \<forall>p. r = Inl p \<longrightarrow> p = SliceBoundsOutOfRange"
    and body: "(if offset <s lim
      then case ReadBoxAt m offset of Inl p \<Rightarrow> Some (Inl p)
           | Inr (sz, nm) \<Rightarrow>
               loop m lim (offset + ucast sz)
                (l @ [\<lparr>Name = nm, Size = ucast sz, Start = offset\<rparr>])
      else Some (Inr l)) = Some r"
  show "\<forall>p. r = Inl p \<longrightarrow> p = SliceBoundsOutOfRange"
  proof (cases "offset <s lim")
    case False
    then show ?thesis using body by auto
  next
    case True
    show ?thesis
    proof (cases "ReadBoxAt m offset")
      case (Inl p)
      then show ?thesis using body True ReadBoxAt_Inl [OF Inl] by auto
    next
      case (Inr v)
      obtain sz nm where v: "v = (sz, nm)" by (cases v)
      have "loop m lim (offset + ucast sz)
              (l @ [\<lparr>Name = nm, Size = ucast sz, Start = offset\<rparr>]) = Some r"
        using body True Inr v by simp
      then show ?thesis using ih by blast
    qed
  qed
qed

lemma readBoxes_loop_returns:
  "chained lim off bs \<Longrightarrow> list_all (declared m) bs \<Longrightarrow>
     readBoxes_loop m lim off l = Some (Inr (l @ bs))"
proof (induction bs arbitrary: off l)
  case Nil
  then show ?case by (subst readBoxes_loop.simps) simp
next
  case (Cons b bs)
  obtain sz where sz: "ReadBoxAt m (Start b) = Inr (sz, Name b)" "Size b = ucast sz"
    using Cons.prems(2) declared_ReadBoxAt by auto
  have b: "\<lparr>Name = Name b, Size = ucast sz, Start = off\<rparr> = b"
    using Cons.prems(1) sz(2) by simp
  have "readBoxes_loop m lim (off + Size b) (l @ [b]) = Some (Inr ((l @ [b]) @ bs))"
    using Cons.prems by (intro Cons.IH) simp_all
  then have rec: "readBoxes_loop m lim (off + ucast sz)
      (l @ [\<lparr>Name = Name b, Size = ucast sz, Start = off\<rparr>]) = Some (Inr (l @ b # bs))"
    unfolding b sz(2) by simp
  have "off <s lim" "ReadBoxAt m off = Inr (sz, Name b)"
    using Cons.prems(1) sz(1) by auto
  then show ?case
    using rec by (subst readBoxes_loop.simps) simp
qed

lemma readBoxes_loop_panics:
  "reaches lim off bs e \<Longrightarrow> list_all (declared m) bs \<Longrightarrow> e <s lim \<Longrightarrow>
     ReadAt (Reader m) 8 e = None \<Longrightarrow>
     readBoxes_loop m lim off l = Some (Inl SliceBoundsOutOfRange)"
proof (induction bs arbitrary: off l)
  case Nil
  then show ?case
    using ReadAt_None_ReadBoxAt [of m e] by (subst readBoxes_loop.simps) simp
next
  case (Cons b bs)
  obtain sz where sz: "ReadBoxAt m (Start b) = Inr (sz, Name b)" "Size b = ucast sz"
    using Cons.prems(2) declared_ReadBoxAt by auto
  have "readBoxes_loop m lim (off + Size b) (l @ [\<lparr>Name = Name b, Size = ucast sz, Start = off\<rparr>]) =
          Some (Inl SliceBoundsOutOfRange)"
    using Cons.prems by (intro Cons.IH) simp_all
  then have rec: "readBoxes_loop m lim (off + ucast sz)
      (l @ [\<lparr>Name = Name b, Size = ucast sz, Start = off\<rparr>]) = Some (Inl SliceBoundsOutOfRange)"
    unfolding sz(2) .
  have "off <s lim" "ReadBoxAt m off = Inr (sz, Name b)"
    using Cons.prems(1) sz(1) by auto
  then show ?case
    using rec by (subst readBoxes_loop.simps) simp
qed

lemma readBoxes_loop_panic_cause:
  assumes "readBoxes_loop m lim off l = Some r"
  shows "\<forall>p. r = Inl p \<longrightarrow>
        (\<exists>bs e. reaches lim off bs e \<and> list_all (declared m) bs \<and> e <s lim \<and>
                 ReadAt (Reader m) 8 e = None)"
proof (rule readBoxes_loop.raw_induct [OF _ assms, where
    P = "\<lambda>m lim off l r. \<forall>p. r = Inl p \<longrightarrow>
        (\<exists>bs e. reaches lim off bs e \<and> list_all (declared m) bs \<and> e <s lim \<and>
                 ReadAt (Reader m) 8 e = None)"])
  fix loop m lim offset l r
  assume ih: "\<And>m lim off l r. loop m lim off l = Some r \<Longrightarrow> \<forall>p. r = Inl p \<longrightarrow>
        (\<exists>bs e. reaches lim off bs e \<and> list_all (declared m) bs \<and> e <s lim \<and>
                 ReadAt (Reader m) 8 e = None)"
    and body: "(if offset <s lim
      then case ReadBoxAt m offset of Inl p \<Rightarrow> Some (Inl p)
           | Inr (sz, nm) \<Rightarrow>
               loop m lim (offset + ucast sz)
                (l @ [\<lparr>Name = nm, Size = ucast sz, Start = offset\<rparr>])
      else Some (Inr l)) = Some r"
  show "\<forall>p. r = Inl p \<longrightarrow>
        (\<exists>bs e. reaches lim offset bs e \<and> list_all (declared m) bs \<and> e <s lim \<and>
                 ReadAt (Reader m) 8 e = None)"
  proof (intro allI impI)
    fix p assume r: "r = Inl p"
    have lt: "offset <s lim"
      using body r by (cases "offset <s lim") simp_all
    show "\<exists>bs e. reaches lim offset bs e \<and> list_all (declared m) bs \<and> e <s lim \<and>
                 ReadAt (Reader m) 8 e = None"
    proof (cases "ReadBoxAt m offset")
      case (Inl q)
      have "reaches lim offset [] offset \<and> list_all (declared m) [] \<and> offset <s lim \<and>
            ReadAt (Reader m) 8 offset = None"
        using lt ReadBoxAt_Inl_ReadAt [OF Inl] by simp
      then show ?thesis by blast
    next
      case (Inr v)
      obtain sz nm where v: "v = (sz, nm)" by (cases v)
      let ?b = "\<lparr>Name = nm, Size = ucast sz, Start = offset\<rparr>"
      have "loop m lim (offset + ucast sz) (l @ [?b]) = Some r"
        using body lt Inr v by simp
      from ih [OF this] r obtain bs e where
        n: "reaches lim (offset + ucast sz) bs e" "list_all (declared m) bs" "e <s lim"
           "ReadAt (Reader m) 8 e = None"
        by blast
      have "declared m ?b"
        using Inr v by (simp add: declared_def)
      then have "reaches lim offset (?b # bs) e \<and> list_all (declared m) (?b # bs) \<and> e <s lim \<and>
            ReadAt (Reader m) 8 e = None"
        using n lt by simp
      then show ?thesis by blast
    qed
  qed
qed

lemma header_unreadable_size4_last:
  "ReadAt (Reader (reader_of size4_last_bytes)) 8 12 = None"
  by code_simp

section \<open>Scans of the example containers\<close>

lemma scan_two_boxes:
  "readBoxes (reader_of two_boxes_bytes) 0 16 =
     Some (Inr [\<lparr>Name = str ''free'', Size = 8, Start = 0\<rparr>,
                \<lparr>Name = str ''skip'', Size = 8, Start = 8\<rparr>])"
  by code_simp

lemma scan_size4:
  "readBoxes (reader_of size4_bytes) 0 12 =
     Some (Inr [\<lparr>Name = str ''free'', Size = 4, Start = 0\<rparr>,
                \<lparr>Name = [0, 0, 0, 8], Size = 1718773093, Start = 4\<rparr>])"
  by code_simp

lemma scan_size4_last:
  "readBoxes (reader_of size4_last_bytes) 0 16 = Some (Inl SliceBoundsOutOfRange)"
  by code_simp




section \<open>The box scanner\<close>

text \<open>
  C9. For every list of boxes that \<^verbatim>\<open>readBoxes(m, start, n)\<close> returns, the first box's
  \<^verbatim>\<open>Start\<close> is \<^verbatim>\<open>start\<close> and each later box's \<^verbatim>\<open>Start\<close> is the \<^verbatim>\<open>Start\<close> of the box
  before it plus that box's \<^verbatim>\<open>Size\<close>: the headers are contiguous, with no gap and no
  overlap. The sum holds as an \<^verbatim>\<open>int64\<close> sum and also as a sum of integers, that is,
  without wrap-around.
\<close>

theorem readBoxes_contiguous:
  "readBoxes m start n = Some (Inr l) \<Longrightarrow>
     (l \<noteq> [] \<longrightarrow> Start (hd l) = start) \<and>
     (\<forall>i. Suc i < length l \<longrightarrow>
        Start (l ! Suc i) = Start (l ! i) + Size (l ! i) \<and>
        sint (Start (l ! Suc i)) = sint (Start (l ! i)) + sint (Size (l ! i)))"
proof -
  assume a: "readBoxes m start n = Some (Inr l)"
  then obtain new where n: "l = [] @ new" "chained (start + n) start new"
    using readBoxes_loop_inv [of m "start + n" start "[]" "Inr l"]
    by (auto simp: readBoxes_def)
  then have c: "chained (start + n) start l" by simp
  have "l \<noteq> [] \<longrightarrow> Start (hd l) = start"
    using c by (cases l) auto
  then show ?thesis using chained_index [OF c] by blast
qed

theorem readBoxes_contiguous_witness:
  "readBoxes (reader_of two_boxes_bytes) 0 16 =
     Some (Inr [\<lparr>Name = str ''free'', Size = 8, Start = 0\<rparr>,
                \<lparr>Name = str ''skip'', Size = 8, Start = 8\<rparr>]) \<and>
   Start (hd [\<lparr>Name = str ''free'', Size = 8, Start = 0\<rparr>,
              \<lparr>Name = str ''skip'', Size = 8, Start = 8\<rparr>]) = 0 \<and>
   Start \<lparr>Name = str ''skip'', Size = 8, Start = 8\<rparr> =
     Start \<lparr>Name = str ''free'', Size = 8, Start = 0\<rparr> +
     Size \<lparr>Name = str ''free'', Size = 8, Start = 0\<rparr>"
  using readBoxes_contiguous [OF scan_two_boxes] scan_two_boxes
  by simp

text \<open>
  C8. Scanning a range of an immutable byte source twice yields the same ordered
  sequence of headers: the result of \<^verbatim>\<open>readBoxes\<close> is a function of the source bytes,
  \<^verbatim>\<open>start\<close> and \<^verbatim>\<open>n\<close> alone. The scan takes no iterator; of the reader it is given it
  uses the \<^verbatim>\<open>Reader\<close> field only, so two readers over the same source (the reader
  before and after \<^verbatim>\<open>Parse\<close> has filled its other fields) give the same result, be it
  a list, a panic or a scan that does not return.
\<close>

theorem readBoxes_deterministic:
  "Reader m = Reader m' \<Longrightarrow> readBoxes m start n = readBoxes m' start n"
proof -
  assume e: "Reader m = Reader m'"
  have fwd: "readBoxes m' start n = Some r" if "readBoxes m start n = Some r" for r
  proof -
    have "readBoxes_loop m (start + n) start [] = Some r"
      using that unfolding readBoxes_def .
    from readBoxes_loop_Reader [OF this] e
    have "readBoxes_loop m' (start + n) start [] = Some r" by blast
    then show ?thesis unfolding readBoxes_def .
  qed
  have bwd: "readBoxes m start n = Some r" if "readBoxes m' start n = Some r" for r
  proof -
    have "readBoxes_loop m' (start + n) start [] = Some r"
      using that unfolding readBoxes_def .
    from readBoxes_loop_Reader [OF this] e [symmetric]
    have "readBoxes_loop m (start + n) start [] = Some r" by blast
    then show ?thesis unfolding readBoxes_def .
  qed
  show ?thesis
  proof (cases "readBoxes m start n")
    case (Some r)
    then show ?thesis using fwd by metis
  next
    case None
    then show ?thesis using bwd by (cases "readBoxes m' start n") auto
  qed
qed

theorem readBoxes_deterministic_witness:
  "Reader (reader_of two_boxes_bytes) =
     Reader ((reader_of two_boxes_bytes)\<lparr>FileSize := 16,
       Mdat := Some \<lparr>Mdat_Box = \<lparr>Name = str ''mdat'', Size = 8, Start = 0\<rparr>, Data = None\<rparr>\<rparr>) \<and>
   readBoxes (reader_of two_boxes_bytes) 0 16 =
     readBoxes ((reader_of two_boxes_bytes)\<lparr>FileSize := 16,
       Mdat := Some \<lparr>Mdat_Box = \<lparr>Name = str ''mdat'', Size = 8, Start = 0\<rparr>, Data = None\<rparr>\<rparr>) 0 16 \<and>
   readBoxes (reader_of two_boxes_bytes) 0 16 =
     Some (Inr [\<lparr>Name = str ''free'', Size = 8, Start = 0\<rparr>,
                \<lparr>Name = str ''skip'', Size = 8, Start = 8\<rparr>])"
proof -
  have e: "Reader (reader_of two_boxes_bytes) =
     Reader ((reader_of two_boxes_bytes)\<lparr>FileSize := 16,
       Mdat := Some \<lparr>Mdat_Box = \<lparr>Name = str ''mdat'', Size = 8, Start = 0\<rparr>, Data = None\<rparr>\<rparr>)"
    by simp
  show ?thesis
    using e readBoxes_deterministic [OF e, of 0 16] scan_two_boxes by simp
qed

text \<open>
  C3, as the claim states it, fails: the 12 bytes \<open>size4_bytes\<close> begin with a header
  that declares size 4, and the scan of the range (0, 12) returns normally. It
  records the box with size 4, reads the next header 4 bytes later, records that box
  with a size that overruns the range, and stops beyond the range end. No
  \<^verbatim>\<open>MalformedContainer\<close> failure exists.
\<close>

theorem readBoxes_size4_accepted:
  "readBoxes (reader_of size4_bytes) 0 12 =
     Some (Inr [\<lparr>Name = str ''free'', Size = 4, Start = 0\<rparr>,
                \<lparr>Name = [0, 0, 0, 8], Size = 1718773093, Start = 4\<rparr>])"
  by code_simp

text \<open>
  C3, amended. The scanner validates no size and has no \<^verbatim>\<open>MalformedContainer\<close>
  failure. It returns a list exactly when the list is the chain of headers from
  \<^verbatim>\<open>start\<close>: each box at the offset where the scan stands, below the range end, with
  the name and the size that the header there declares, whatever that size is, the
  next box \<^verbatim>\<open>Size\<close> bytes later, and the chain ending at the range end or beyond it. It
  fails exactly when such a chain comes to stand at an offset below the range end where
  the 8 bytes of a header cannot be read, and the failure is the Go panic of the slice
  expression (slice bounds out of range). In particular a header declaring size 4
  yields a box of size 4.
\<close>

theorem readBoxes_no_validation:
  "(readBoxes m start n = Some (Inr l) \<longleftrightarrow>
      chained (start + n) start l \<and> list_all (declared m) l) \<and>
   (readBoxes m start n = Some (Inl p) \<longleftrightarrow>
      p = SliceBoundsOutOfRange \<and>
      (\<exists>bs e. reaches (start + n) start bs e \<and> list_all (declared m) bs \<and>
               e <s start + n \<and> ReadAt (Reader m) 8 e = None)) \<and>
   (chained (start + n) start l \<longrightarrow>
      (\<forall>b \<in> set l. Start b <s start + n) \<and>
      (l \<noteq> [] \<longrightarrow> \<not> Start (last l) + Size (last l) <s start + n))"
proof (intro conjI iffI impI)
  assume "readBoxes m start n = Some (Inr l)"
  then obtain new where "l = [] @ new" "chained (start + n) start new"
      "list_all (declared m) new"
    using readBoxes_loop_inv [of m "start + n" start "[]" "Inr l"]
    by (auto simp: readBoxes_def)
  then show "chained (start + n) start l" "list_all (declared m) l"
    by simp_all
next
  assume "chained (start + n) start l \<and> list_all (declared m) l"
  then show "readBoxes m start n = Some (Inr l)"
    using readBoxes_loop_returns [of "start + n" start l m "[]"]
    by (simp add: readBoxes_def)
next
  assume a: "readBoxes m start n = Some (Inl p)"
  then show "p = SliceBoundsOutOfRange"
    using readBoxes_loop_Inl [of m "start + n" start "[]" "Inl p"]
    by (simp add: readBoxes_def)
  show "\<exists>bs e. reaches (start + n) start bs e \<and> list_all (declared m) bs \<and>
               e <s start + n \<and> ReadAt (Reader m) 8 e = None"
    using a readBoxes_loop_panic_cause [of m "start + n" start "[]" "Inl p"]
    by (simp add: readBoxes_def)
next
  assume "p = SliceBoundsOutOfRange \<and>
      (\<exists>bs e. reaches (start + n) start bs e \<and> list_all (declared m) bs \<and>
               e <s start + n \<and> ReadAt (Reader m) 8 e = None)"
  then show "readBoxes m start n = Some (Inl p)"
    using readBoxes_loop_panics [of "start + n" start _ _ m "[]"]
    by (auto simp: readBoxes_def)
next
  assume c: "chained (start + n) start l"
  show "\<forall>b \<in> set l. Start b <s start + n"
    using chained_in_range [OF c] by blast
  assume "l \<noteq> []"
  then show "\<not> Start (last l) + Size (last l) <s start + n"
    using chained_last [OF c] by simp
qed

theorem readBoxes_no_validation_witness:
  "chained (0 + 12) 0 [\<lparr>Name = str ''free'', Size = 4, Start = 0\<rparr>,
                        \<lparr>Name = [0, 0, 0, 8], Size = 1718773093, Start = 4\<rparr>] \<and>
   list_all (declared (reader_of size4_bytes))
     [\<lparr>Name = str ''free'', Size = 4, Start = 0\<rparr>,
      \<lparr>Name = [0, 0, 0, 8], Size = 1718773093, Start = 4\<rparr>] \<and>
   readBoxes (reader_of size4_bytes) 0 12 =
     Some (Inr [\<lparr>Name = str ''free'', Size = 4, Start = 0\<rparr>,
                \<lparr>Name = [0, 0, 0, 8], Size = 1718773093, Start = 4\<rparr>]) \<and>
   \<not> Start \<lparr>Name = [0, 0, 0, 8], Size = 1718773093, Start = 4\<rparr> +
       Size \<lparr>Name = [0, 0, 0, 8], Size = 1718773093, Start = 4\<rparr> <s (0 + 12 :: int64) \<and>
   reaches (0 + 16) 0 [\<lparr>Name = str ''free'', Size = 8, Start = 0\<rparr>,
                        \<lparr>Name = str ''skip'', Size = 4, Start = 8\<rparr>] 12 \<and>
   list_all (declared (reader_of size4_last_bytes))
     [\<lparr>Name = str ''free'', Size = 8, Start = 0\<rparr>,
      \<lparr>Name = str ''skip'', Size = 4, Start = 8\<rparr>] \<and>
   ReadAt (Reader (reader_of size4_last_bytes)) 8 12 = None \<and>
   readBoxes (reader_of size4_last_bytes) 0 16 = Some (Inl SliceBoundsOutOfRange)"
proof -
  let ?l = "[\<lparr>Name = str ''free'', Size = 4, Start = 0\<rparr>,
             \<lparr>Name = [0, 0, 0, 8], Size = 1718773093, Start = 4\<rparr>]"
  let ?bs = "[\<lparr>Name = str ''free'', Size = 8, Start = 0\<rparr>,
              \<lparr>Name = str ''skip'', Size = 4, Start = 8\<rparr>]"
  have c: "chained (0 + 12) 0 ?l"
    by (simp add: word_sless_alt)
  have d: "list_all (declared (reader_of size4_bytes)) ?l"
    by code_simp
  have r: "reaches (0 + 16) 0 ?bs 12"
    by (simp add: word_sless_alt)
  have e: "list_all (declared (reader_of size4_last_bytes)) ?bs"
    by code_simp
  have lt: "(12 :: int64) <s 0 + 16"
    by (simp add: word_sless_alt)
  note t1 = readBoxes_no_validation [of "reader_of size4_bytes" 0 12 ?l SliceBoundsOutOfRange]
  note t2 = readBoxes_no_validation [of "reader_of size4_last_bytes" 0 16 "[]"
      SliceBoundsOutOfRange]
  have s1: "readBoxes (reader_of size4_bytes) 0 12 = Some (Inr ?l)"
    using t1 c d by blast
  have s2: "\<not> Start (last ?l) + Size (last ?l) <s (0 + 12 :: int64)"
    using t1 c by blast
  have s3: "readBoxes (reader_of size4_last_bytes) 0 16 = Some (Inl SliceBoundsOutOfRange)"
    using t2 r e lt header_unreadable_size4_last by blast
  show ?thesis
    using c d r e s1 s2 s3 header_unreadable_size4_last by simp
qed




section \<open>The payload reader\<close>

text \<open>
  C10. For every box whose declared \<^verbatim>\<open>Size\<close> is at most the 8-byte header size,
  \<^verbatim>\<open>ReadBoxData\<close> returns \<^verbatim>\<open>nil\<close> (\<open>None\<close>) and makes no read on the byte source
  (its list of reads is empty), whatever the reader holds; so a box with an empty
  payload (\<^verbatim>\<open>Size = 8\<close>) yields \<^verbatim>\<open>nil\<close>, not the empty slice \<open>Some []\<close>.
\<close>

theorem ReadBoxData_small_nil:
  "Size b \<le>s BoxHeaderSize \<Longrightarrow>
     ReadBoxData m b = Inr (None, [])"
  by (simp add: ReadBoxData_def)

theorem ReadBoxData_small_nil_witness:
  "Size \<lparr>Name = str ''free'', Size = 8, Start = 0\<rparr> \<le>s BoxHeaderSize \<and>
   ReadBoxData \<lparr>Reader = OsFile [0, 0, 0, 8, 102, 114, 101, 101] True, Ftyp = None,
                 Moov = None, Mdat = None, FileSize = 8\<rparr>
     \<lparr>Name = str ''free'', Size = 8, Start = 0\<rparr> = Inr (None, [])"
  using ReadBoxData_small_nil
    [of "\<lparr>Name = str ''free'', Size = 8, Start = 0\<rparr>"
        "\<lparr>Reader = OsFile [0, 0, 0, 8, 102, 114, 101, 101] True, Ftyp = None,
          Moov = None, Mdat = None, FileSize = 8\<rparr>"]
  by (simp add: BoxHeaderSize_def)
section \<open>The box tree\<close>






















section \<open>The parse of the example containers\<close>




















text \<open>
  C5. The claim holds of no revision as a whole, and the later one breaks it by a
  missing guard. Its \<^verbatim>\<open>MovieBox.parse\<close> assigns \<^verbatim>\<open>b.Trak\<close> at every track whose handler
  type is \<^verbatim>\<open>vide\<close>, so a later video track replaces the earlier one: of the two video
  tracks of \<open>two_video_bytes\<close>, at offsets 8 and 44, the second is the one selected.
  (\<^verbatim>\<open>MoovContainer.parse\<close> of the older revision keeps the first track by
  \<^verbatim>\<open>if count == 0\<close>, and ignores every later one.)
\<close>

theorem MovieBox_parse_two_video_tracks:
  "MovieBox_parse (reader_of two_video_bytes) \<lparr>Name = str ''moov'', Size = 80, Start = 0\<rparr> =
     Some (Inr
       \<lparr>Moov_Box = \<lparr>Name = str ''moov'', Size = 80, Start = 0\<rparr>,
        Mvhd = None,
        Trak = Some
          \<lparr>Trak_Box = \<lparr>Name = str ''trak'', Size = 36, Start = 44\<rparr>,
           Tkhd = None,
           Mdia = Some
             \<lparr>Mdia_Box = \<lparr>Name = str ''mdia'', Size = 28, Start = 52\<rparr>,
              Mdhd = None,
              Hdlr = Some
                \<lparr>Hdlr_Box = \<lparr>Name = str ''hdlr'', Size = 20, Start = 60\<rparr>,
                 Hdlr_Version = 0, Hdlr_Flags = [0, 0, 0], Hdlr_PreDefined = 0,
                 HandlerType = 1986618469, Hdlr_Reserved = [0, 0, 0],
                 TypeName = str ''vide''\<rparr>,
              Minf = None\<rparr>\<rparr>\<rparr>)"
  by code_simp

text \<open>
  C6. The track header decoder breaks the claim: it reads the 16.16 fields width and
  height with the 8.8 reader, \<^verbatim>\<open>fixed16(data[76:80])\<close>, which takes the first two of
  the four bytes. For the width field \<^verbatim>\<open>07 80 80 00\<close> (1920.5) the decoded \<^verbatim>\<open>Width\<close> is
  \<^verbatim>\<open>0x0780\<close> = 1920, the integer part alone, and for the height field \<^verbatim>\<open>04 38 40 00\<close>
  (1080.25) it is 1080; \<^verbatim>\<open>Fixed16.String\<close> then prints the width as 7.
\<close>

theorem TrackHeaderBox_parse_width_integer_part:
  "TrackHeaderBox_parse (reader_of tkhd_bytes) \<lparr>Name = str ''tkhd'', Size = 92, Start = 0\<rparr> =
     Inr \<lparr>Tkhd_Box = \<lparr>Name = str ''tkhd'', Size = 92, Start = 0\<rparr>,
          Tkhd_Version = 0, Tkhd_Flags = [0, 0, 0], Tkhd_CreationTime = 0,
          Tkhd_ModificationTime = 0, TrackID = 0, Tkhd_Reserved = 0, Tkhd_Duration = 0,
          Layer = 0, AlternateGroup = 0, Tkhd_Volume = 0,
          Width = 1920, Height = 1080\<rparr> \<and>
   Fixed16_String 1920 = str ''7''"
  by code_simp

section \<open>Samples and the elementary stream\<close>

text \<open>
  C1. No function of the program builds a sample list. On the sample tables of the
  claim (\<open>stbl_bytes\<close>) the sample table decoder keeps, of each table, the version, the
  flags and the counts: the sizes 10, 20, 30, the chunk runs and the chunk offsets
  1000, 1030 are read by no one. \<^verbatim>\<open>extractVideoChunks\<close> does not look at the movie box
  at all; where the samples should be extracted it has the comment
  \<^verbatim>\<open>@todo Extract videChunks, build full video stream and convert in Annex-B format\<close>.
\<close>

theorem SampleTableBox_parse_keeps_counts:
  "SampleTableBox_parse (reader_of stbl_bytes) \<lparr>Name = str ''stbl'', Size = 104, Start = 0\<rparr> =
     Some (Inr
       \<lparr>Stbl_Box = \<lparr>Name = str ''stbl'', Size = 104, Start = 0\<rparr>,
        Stsz = Some \<lparr>Stsz_Box = \<lparr>Name = str ''stsz'', Size = 32, Start = 8\<rparr>,
                      Stsz_Version = 0, Stsz_Flags = [0, 0, 0],
                      SampleSize = 0, SampleCount = 3\<rparr>,
        Stsc = Some \<lparr>Stsc_Box = \<lparr>Name = str ''stsc'', Size = 40, Start = 40\<rparr>,
                      Stsc_Version = 0, Stsc_Flags = [0, 0, 0], Stsc_EntryCount = 2\<rparr>,
        Stco = Some \<lparr>Stco_Box = \<lparr>Name = str ''stco'', Size = 24, Start = 80\<rparr>,
                      Stco_Version = 0, Stco_Flags = [0, 0, 0], Stco_EntryCount = 2\<rparr>\<rparr>) \<and>
   extractVideoChunks (mp4\<lparr>Moov := mv\<rparr>) = extractVideoChunks mp4"
proof
  show "SampleTableBox_parse (reader_of stbl_bytes) \<lparr>Name = str ''stbl'', Size = 104, Start = 0\<rparr> =
     Some (Inr
       \<lparr>Stbl_Box = \<lparr>Name = str ''stbl'', Size = 104, Start = 0\<rparr>,
        Stsz = Some \<lparr>Stsz_Box = \<lparr>Name = str ''stsz'', Size = 32, Start = 8\<rparr>,
                      Stsz_Version = 0, Stsz_Flags = [0, 0, 0],
                      SampleSize = 0, SampleCount = 3\<rparr>,
        Stsc = Some \<lparr>Stsc_Box = \<lparr>Name = str ''stsc'', Size = 40, Start = 40\<rparr>,
                      Stsc_Version = 0, Stsc_Flags = [0, 0, 0], Stsc_EntryCount = 2\<rparr>,
        Stco = Some \<lparr>Stco_Box = \<lparr>Name = str ''stco'', Size = 24, Start = 80\<rparr>,
                      Stco_Version = 0, Stco_Flags = [0, 0, 0], Stco_EntryCount = 2\<rparr>\<rparr>)"
    by code_simp
  show "extractVideoChunks (mp4\<lparr>Moov := mv\<rparr>) = extractVideoChunks mp4"
    by (simp add: extractVideoChunks_def)
qed

text \<open>
  C2. The extractor does not rewrite the units. For the file \<open>mdat_bytes\<close>, whose sample
  holds a unit of 2 bytes and a unit of 3 bytes, each after its 4-byte length, it
  writes one start code, then the media data from its fifth byte on: the second unit
  keeps its length prefix \<^verbatim>\<open>00 00 00 03\<close>, where the claim has the start code
  \<^verbatim>\<open>00 00 00 01\<close>.
\<close>

theorem extractVideoChunks_keeps_length_prefix:
  "Parse (reader_of mdat_bytes) =
     Some (Inr (None,
       \<lparr>Reader = OsFile mdat_bytes True, Ftyp = None, Moov = None,
        Mdat = Some \<lparr>Mdat_Box = \<lparr>Name = str ''mdat'', Size = 21, Start = 0\<rparr>,
                      Data = Some [0, 0, 0, 2, 170, 187, 0, 0, 0, 3, 204, 221, 238]\<rparr>,
        FileSize = 21\<rparr>)) \<and>
   extractVideoChunks
       \<lparr>Reader = OsFile mdat_bytes True, Ftyp = None, Moov = None,
        Mdat = Some \<lparr>Mdat_Box = \<lparr>Name = str ''mdat'', Size = 21, Start = 0\<rparr>,
                      Data = Some [0, 0, 0, 2, 170, 187, 0, 0, 0, 3, 204, 221, 238]\<rparr>,
        FileSize = 21\<rparr> =
     Inr [0, 0, 0, 1, 170, 187, 0, 0, 0, 3, 204, 221, 238] \<and>
   [0, 0, 0, 1, 170, 187, 0, 0, 0, 3, 204, 221, 238] \<noteq>
     [0, 0, 0, 1, 170, 187, 0, 0, 0, 1, 204, 221, 238 :: byte]"
  by code_simp


end
